theory Spec2Isabelle
  imports Main "HOL-Library.AList"
begin

section \<open>The component state of \<open>App.tsx\<close>\<close>

text \<open>
  The embedding follows \<open>src/src/App.tsx\<close>: one React function component with seven
  \<open>useState\<close> cells, three handlers (\<open>onDrop\<close>, \<open>uploadTemplate\<close>, \<open>generatePDF\<close>), two
  inline handlers in the JSX (the \<open>onChange\<close> of each placeholder input and the
  \<open>onClick\<close> of the download anchor) and the conditions under which the JSX renders or
  disables its controls.
\<close>

text \<open>The browser's \<open>File\<close> object: its display name and its bytes.\<close>

datatype File = File (name: string) (content: "nat list")

text \<open>
  \<open>interface Fields { [key: string]: string }\<close>: a plain JavaScript object with string
  values. Own properties are kept as an association list in the order in which
  JavaScript enumerates them (\<open>Object.values\<close>, the spread, \<open>JSON.stringify\<close>): first the
  keys that are array indices, in ascending numeric order, then the other keys in the
  order of their creation. The representation invariant is that no key occurs twice.
\<close>

type_synonym Fields = "(string \<times> string) list"

text \<open>
  A value decoded by \<open>response.json()\<close>, or \<open>undefined\<close> for a field that the body does
  not have. A number is kept as the text that JavaScript's conversion of numbers to
  strings gives for it (\<open>1\<close> for \<open>1.0\<close>, \<open>0\<close> for \<open>-0\<close>), which is all this program
  ever does with a number.
\<close>

datatype json =
    JUndefined
  | JNull
  | JBool bool
  | JNumber string
  | JString string
  | JArray "json list"
  | JObject "(string \<times> json) list"

text \<open>
  The cells \<open>file\<close> and \<open>fields\<close> are named \<open>file_cell\<close> and \<open>fields_cell\<close>: the first
  is a keyword of Isabelle, the second a constant that every record declares.
\<close>

text \<open>
  The cell \<open>placeholders\<close> is declared \<open>string[]\<close>, and line 59 stores in it whatever
  array the service sent: the declaration is erased at run time, so the elements are
  JSON values.
\<close>

record App =
  file_cell :: "File option"
  placeholders :: "json list"
  fields_cell :: Fields
  fileLocation :: string
  downloadLink :: string
  isLoading :: bool
  error :: string

text \<open>The initial values of the \<open>useState\<close> calls (lines 10 to 16).\<close>

definition initial :: App where
  "initial = \<lparr> file_cell = None, placeholders = [], fields_cell = [], fileLocation = '''',
     downloadLink = '''', isLoading = False, error = '''' \<rparr>"

text \<open>JavaScript truthiness of a string: \<open>!v\<close> holds exactly for the empty string.\<close>

definition falsy :: "string \<Rightarrow> bool" where
  "falsy v = (v = '''')"

section \<open>What the service answers\<close>

fun Array_isArray :: "json \<Rightarrow> bool" where
  "Array_isArray (JArray xs) = True"
| "Array_isArray _ = False"

text \<open>
  The decoded body of a successful upload response: \<open>data.filePath\<close>, the reference
  string of the service, and \<open>data.placeholders\<close>, which may be any value.
\<close>

datatype upload_data = UploadData (filePath: string) (placeholders_json: json)

text \<open>
  How a request of the \<open>try\<close> block ends. \<open>FetchRejected\<close>: the promise of \<open>fetch\<close>
  rejects. \<open>NotOk\<close>: \<open>response.ok\<close> is false and the code throws. \<open>JsonRejected\<close>:
  \<open>response.json()\<close> rejects. \<open>NullBody\<close>: the body is the JSON value \<open>null\<close>, so the
  first property read of \<open>data\<close> throws a TypeError. \<open>Body d\<close>: the body decodes to \<open>d\<close>.
  All but the last reach the \<open>catch\<close> block.
\<close>

datatype 'a outcome = FetchRejected | NotOk | JsonRejected | NullBody | Body 'a

section \<open>Property keys and own properties\<close>

text \<open>
  A value used as a property key (\<open>acc[key]\<close>, \<open>[key]: ...\<close>) is converted to a string.
  For the values that \<open>response.json()\<close> can give: a string is itself; \<open>null\<close>, \<open>true\<close>,
  \<open>false\<close> and \<open>undefined\<close> are their names; a number is its text; an array is its
  elements converted and joined by commas, where \<open>null\<close> and \<open>undefined\<close> elements give
  the empty string; an object is \<open>[object Object]\<close>.
\<close>

fun ToPropertyKey :: "json \<Rightarrow> string" and join_elements :: "json list \<Rightarrow> string" where
  "ToPropertyKey JUndefined = ''undefined''"
| "ToPropertyKey JNull = ''null''"
| "ToPropertyKey (JBool b) = (if b then ''true'' else ''false'')"
| "ToPropertyKey (JNumber t) = t"
| "ToPropertyKey (JString s) = s"
| "ToPropertyKey (JArray xs) = join_elements xs"
| "ToPropertyKey (JObject ps) = ''[object Object]''"
| "join_elements [] = ''''"
| "join_elements [x] =
     (case x of JUndefined \<Rightarrow> '''' | JNull \<Rightarrow> '''' | _ \<Rightarrow> ToPropertyKey x)"
| "join_elements (x # y # ys) =
     (case x of JUndefined \<Rightarrow> '''' | JNull \<Rightarrow> '''' | _ \<Rightarrow> ToPropertyKey x)
       @ '','' @ join_elements (y # ys)"

text \<open>
  An array index is a key that is the decimal text, without sign or leading zero, of a
  number below \<open>2^32 - 1\<close>.
\<close>

definition digit_table :: "(char \<times> nat) list" where
  "digit_table =
     [(CHR ''0'', 0), (CHR ''1'', 1), (CHR ''2'', 2), (CHR ''3'', 3), (CHR ''4'', 4),
      (CHR ''5'', 5), (CHR ''6'', 6), (CHR ''7'', 7), (CHR ''8'', 8), (CHR ''9'', 9)]"

definition digit :: "char \<Rightarrow> nat option" where
  "digit c = map_of digit_table c"

fun digits_value :: "string \<Rightarrow> nat \<Rightarrow> nat option" where
  "digits_value [] acc = Some acc"
| "digits_value (c # cs) acc =
     (case digit c of None \<Rightarrow> None | Some d \<Rightarrow> digits_value cs (10 * acc + d))"

definition array_index :: "string \<Rightarrow> nat option" where
  "array_index k =
     (case k of
        [] \<Rightarrow> None
      | c # cs \<Rightarrow>
          if c = CHR ''0'' \<and> cs \<noteq> [] then None
          else (case digits_value k 0 of
                  None \<Rightarrow> None
                | Some n \<Rightarrow> if n < 4294967295 then Some n else None))"

text \<open>
  Creating the own property \<open>k\<close>, an array index of value \<open>n\<close>, in an object that does
  not have it: it goes before the first key that is a larger array index or no array
  index at all.
\<close>

fun insert_index :: "nat \<Rightarrow> string \<Rightarrow> string \<Rightarrow> Fields \<Rightarrow> Fields" where
  "insert_index n k v [] = [(k, v)]"
| "insert_index n k v (e # fs) =
     (case array_index (fst e) of
        None \<Rightarrow> (k, v) # e # fs
      | Some m \<Rightarrow> if m < n then e # insert_index n k v fs else (k, v) # e # fs)"

text \<open>
  Writing the own data property \<open>k\<close>: an existing key keeps its place and gets the new
  value; a new key is created, an array index among the array indices, any other key
  at the end.
\<close>

definition own_set :: "string \<Rightarrow> string \<Rightarrow> Fields \<Rightarrow> Fields" where
  "own_set k v fs =
     (if k \<in> set (map fst fs) then AList.update k v fs
      else (case array_index k of
              None \<Rightarrow> fs @ [(k, v)]
            | Some n \<Rightarrow> insert_index n k v fs))"

section \<open>The handlers\<close>

text \<open>\<open>onDrop\<close>, lines 18 to 23.\<close>

definition onDrop :: "File list \<Rightarrow> App \<Rightarrow> App" where
  "onDrop acceptedFiles s =
     (case acceptedFiles of
        [] \<Rightarrow> s
      | f # _ \<Rightarrow> s\<lparr> file_cell := Some f, error := '''' \<rparr>)"

text \<open>
  The assignment \<open>acc[key] = ""\<close> of line 63 on an object created by the literal \<open>{}\<close>.
  The key is converted to a string. For every key but one the assignment writes an own
  property. The key \<open>__proto__\<close> is the exception: the object inherits the accessor
  \<open>Object.prototype.__proto__\<close>, the assignment calls its setter, and the setter ignores
  a value that is neither an object nor \<open>null\<close>, so no own property is created.
\<close>

definition assign :: "Fields \<Rightarrow> json \<Rightarrow> string \<Rightarrow> Fields" where
  "assign acc key v =
     (if ToPropertyKey key = ''__proto__'' then acc else own_set (ToPropertyKey key) v acc)"

text \<open>
  Lines 56 to 58: the conditional around \<open>Array.isArray\<close>. An array is taken as it is,
  whatever its elements.
\<close>

definition placeholdersArray :: "upload_data \<Rightarrow> json list" where
  "placeholdersArray d =
     (if Array_isArray (placeholders_json d)
      then (case placeholders_json d of JArray xs \<Rightarrow> xs | _ \<Rightarrow> [])
      else [])"

text \<open>Lines 62 to 65: \<open>reduce\<close> is a left fold that starts from the empty object.\<close>

definition newFields :: "json list \<Rightarrow> Fields" where
  "newFields xs = foldl (\<lambda>acc key. assign acc key '''') [] xs"

definition upload_message :: string where
  "upload_message = ''Failed to upload template. Please try again.''"

definition generate_message :: string where
  "generate_message = ''Failed to generate PDF. Please try again.''"

text \<open>
  \<open>uploadTemplate\<close>, lines 33 to 73, is an async function. Its synchronous prefix runs
  up to the \<open>await fetch\<close>: it returns at once when no file is selected, and otherwise
  sets the two flags and sends the request that carries the file. State updates made in
  one synchronous run are taken as one transition.
\<close>

definition uploadTemplate_begin :: "App \<Rightarrow> (App \<times> File) option" where
  "uploadTemplate_begin s =
     (case file_cell s of
        None \<Rightarrow> None
      | Some f \<Rightarrow> Some (s\<lparr> isLoading := True, error := '''' \<rparr>, f))"

text \<open>
  The rest of \<open>uploadTemplate\<close>, run when the request has ended: the \<open>try\<close> body after
  the awaits, or the \<open>catch\<close> block, and then \<open>finally\<close>. Every setter is called with a
  value, never with an updater function, so the continuation writes into whatever the
  state is by then.
\<close>

definition uploadTemplate_resume :: "upload_data outcome \<Rightarrow> App \<Rightarrow> App" where
  "uploadTemplate_resume r s =
     (case r of
        Body d \<Rightarrow>
          s\<lparr> fileLocation := filePath d,
             placeholders := placeholdersArray d,
             fields_cell := newFields (placeholdersArray d),
             isLoading := False \<rparr>
      | _ \<Rightarrow> s\<lparr> error := upload_message, isLoading := False \<rparr>)"

text \<open>The whole call, with nothing else happening while the request is in flight.\<close>

definition uploadTemplate :: "upload_data outcome \<Rightarrow> App \<Rightarrow> App" where
  "uploadTemplate r s =
     (case uploadTemplate_begin s of
        None \<Rightarrow> s
      | Some (s1, f) \<Rightarrow> uploadTemplate_resume r s1)"

text \<open>
  \<open>generatePDF\<close>, lines 75 to 105, in the same two parts. The request carries the
  \<open>fileLocation\<close> and the \<open>fields\<close> of the render in which the button was clicked; the
  decoded body is \<open>data.downloadPath\<close>.
\<close>

definition generatePDF_begin :: "App \<Rightarrow> (App \<times> string \<times> Fields) option" where
  "generatePDF_begin s =
     (if falsy (fileLocation s) then None
      else Some (s\<lparr> isLoading := True, error := '''' \<rparr>, fileLocation s, fields_cell s))"

definition generatePDF_resume :: "string outcome \<Rightarrow> App \<Rightarrow> App" where
  "generatePDF_resume r s =
     (case r of
        Body downloadPath \<Rightarrow> s\<lparr> downloadLink := downloadPath, isLoading := False \<rparr>
      | _ \<Rightarrow> s\<lparr> error := generate_message, isLoading := False \<rparr>)"

definition generatePDF :: "string outcome \<Rightarrow> App \<Rightarrow> App" where
  "generatePDF r s =
     (case generatePDF_begin s of
        None \<Rightarrow> s
      | Some (s1, req) \<Rightarrow> generatePDF_resume r s1)"

text \<open>
  The \<open>onChange\<close> handler of the input rendered for the element \<open>key\<close> of
  \<open>placeholders\<close>, lines 180 to 182: \<open>setFields({ ...fields, [key]: e.target.value })\<close>.
  The spread copies the own properties in their order and the computed key, converted
  to a string, then defines an own property (also for \<open>__proto__\<close>: a computed key never
  sets the prototype). There is no test of \<open>key\<close>.
\<close>

definition setField :: "json \<Rightarrow> string \<Rightarrow> App \<Rightarrow> App" where
  "setField key v s = s\<lparr> fields_cell := own_set (ToPropertyKey key) v (fields_cell s) \<rparr>"

text \<open>The \<open>onClick\<close> of the download anchor, lines 217 to 219.\<close>

definition consumeDownload :: "App \<Rightarrow> App" where
  "consumeDownload s = s\<lparr> downloadLink := '''' \<rparr>"

section \<open>What the rendered page offers\<close>

text \<open>\<open>Object.values(fields)\<close>: the values of the own properties, in their order.\<close>

definition Object_values :: "Fields \<Rightarrow> string list" where
  "Object_values fs = map snd fs"

text \<open>Line 147, the \<open>disabled\<close> attribute of the upload button.\<close>

definition upload_disabled :: "App \<Rightarrow> bool" where
  "upload_disabled s = (file_cell s = None \<or> isLoading s)"

text \<open>Lines 196 to 200, the \<open>disabled\<close> attribute of the generate button.\<close>

definition generate_disabled :: "App \<Rightarrow> bool" where
  "generate_disabled s =
     (falsy (fileLocation s) \<or> isLoading s \<or> list_ex (\<lambda>v. falsy v) (Object_values (fields_cell s)))"

text \<open>
  The third disjunct of that attribute, negated: the completeness test that gates
  generation, \<open>!Object.values(fields).some((v) => !v)\<close>.
\<close>

definition isComplete :: "Fields \<Rightarrow> bool" where
  "isComplete fs = (\<not> list_ex (\<lambda>v. falsy v) (Object_values fs))"

text \<open>
  Line 175 renders each element of \<open>placeholders\<close> as a child of its label, \<open>{key}:\<close>.
  React renders a string or a number as text, renders nothing for \<open>null\<close> and for a
  boolean, and renders an array element by element. An object is not a valid child:
  the render throws, and as the component has no error boundary the whole page is
  removed. \<open>page_renders\<close> says that the render of the state does not throw.
\<close>

fun renders_child :: "json \<Rightarrow> bool" and renders_children :: "json list \<Rightarrow> bool" where
  "renders_child (JObject ps) = False"
| "renders_child (JArray xs) = renders_children xs"
| "renders_child JUndefined = True"
| "renders_child JNull = True"
| "renders_child (JBool b) = True"
| "renders_child (JNumber n) = True"
| "renders_child (JString x) = True"
| "renders_children [] = True"
| "renders_children (x # xs) = (renders_child x \<and> renders_children xs)"

definition page_renders :: "App \<Rightarrow> bool" where
  "page_renders s = renders_children (placeholders s)"

text \<open>
  Lines 163 and 193: the inputs, the generate button and the download anchor are inside
  blocks rendered only when \<open>placeholders.length > 0\<close>; the anchor also needs a truthy
  \<open>downloadLink\<close> (line 214). An input exists for each element of \<open>placeholders\<close>.
  A control can be used when the page renders, the control is rendered, and it is not
  disabled.
\<close>

definition section_rendered :: "App \<Rightarrow> bool" where
  "section_rendered s = (length (placeholders s) > 0)"

definition upload_callable :: "App \<Rightarrow> bool" where
  "upload_callable s = (page_renders s \<and> \<not> upload_disabled s)"

definition generate_callable :: "App \<Rightarrow> bool" where
  "generate_callable s = (page_renders s \<and> section_rendered s \<and> \<not> generate_disabled s)"

definition input_rendered :: "json \<Rightarrow> App \<Rightarrow> bool" where
  "input_rendered key s =
     (page_renders s \<and> section_rendered s \<and> key \<in> set (placeholders s))"

definition download_rendered :: "App \<Rightarrow> bool" where
  "download_rendered s =
     (page_renders s \<and> section_rendered s \<and> \<not> falsy (downloadLink s))"

section \<open>The page as a transition system\<close>

text \<open>
  A configuration is the component state together with the requests that are in flight.
  An event is something the user does to a control, or the end of a request. \<open>step\<close>
  gives \<open>None\<close> when the page does not offer the event: the page was removed, the
  control is disabled or not rendered, or no request of that kind is in flight. A
  request that ends after the page was removed changes nothing: React drops the state
  updates of a component that is no longer mounted.
\<close>

datatype request = UploadRequest File | GenerateRequest string Fields

type_synonym config = "App \<times> request list"

datatype event =
    Drop "File list"
  | ClickUpload
  | UploadSettled "upload_data outcome"
  | Change json string
  | ClickGenerate
  | GenerateSettled "string outcome"
  | ClickDownload

fun take_upload :: "request list \<Rightarrow> request list option" where
  "take_upload [] = None"
| "take_upload (UploadRequest f # q) = Some q"
| "take_upload (r # q) = map_option ((#) r) (take_upload q)"

fun take_generate :: "request list \<Rightarrow> request list option" where
  "take_generate [] = None"
| "take_generate (GenerateRequest l fs # q) = Some q"
| "take_generate (r # q) = map_option ((#) r) (take_generate q)"

fun step :: "event \<Rightarrow> config \<Rightarrow> config option" where
  "step (Drop acceptedFiles) (s, q) =
     (if page_renders s then Some (onDrop acceptedFiles s, q) else None)"
| "step ClickUpload (s, q) =
     (if upload_callable s
      then (case uploadTemplate_begin s of
              None \<Rightarrow> Some (s, q)
            | Some (s1, f) \<Rightarrow> Some (s1, q @ [UploadRequest f]))
      else None)"
| "step (UploadSettled r) (s, q) =
     (case take_upload q of
        None \<Rightarrow> None
      | Some q1 \<Rightarrow> Some (if page_renders s then uploadTemplate_resume r s else s, q1))"
| "step (Change key v) (s, q) =
     (if input_rendered key s then Some (setField key v s, q) else None)"
| "step ClickGenerate (s, q) =
     (if generate_callable s
      then (case generatePDF_begin s of
              None \<Rightarrow> Some (s, q)
            | Some (s1, l, fs) \<Rightarrow> Some (s1, q @ [GenerateRequest l fs]))
      else None)"
| "step (GenerateSettled r) (s, q) =
     (case take_generate q of
        None \<Rightarrow> None
      | Some q1 \<Rightarrow> Some (if page_renders s then generatePDF_resume r s else s, q1))"
| "step ClickDownload (s, q) =
     (if download_rendered s then Some (consumeDownload s, q) else None)"

fun run :: "event list \<Rightarrow> config \<Rightarrow> config option" where
  "run [] c = Some c"
| "run (e # es) c = (case step e c of None \<Rightarrow> None | Some c1 \<Rightarrow> run es c1)"

inductive reachable :: "config \<Rightarrow> bool" where
  reachable_initial: "reachable (initial, [])"
| reachable_step: "reachable c \<Longrightarrow> step e c = Some c1 \<Longrightarrow> reachable c1"

section \<open>The scenario of the specification\<close>

text \<open>
  The states of the end-to-end scenario: \<open>invoice.pdf\<close> is picked, uploaded (the service
  answers with the reference \<open>/tmp/t1\<close> and the placeholders \<open>name\<close> and \<open>amount\<close>),
  filled in, and generated (the service answers \<open>/out/d1.pdf\<close>).
\<close>

definition invoice :: File where
  "invoice = File ''invoice.pdf'' [37, 80, 68, 70]"

definition answer_t1 :: upload_data where
  "answer_t1 = UploadData ''/tmp/t1'' (JArray [JString ''name'', JString ''amount''])"

definition state_selected :: App where
  "state_selected = onDrop [invoice] initial"

definition state_ready :: App where
  "state_ready = uploadTemplate (Body answer_t1) state_selected"

definition state_filled :: App where
  "state_filled =
     setField (JString ''amount'') ''100'' (setField (JString ''name'') ''Alice'' state_ready)"

definition state_generated :: App where
  "state_generated = generatePDF (Body ''/out/d1.pdf'') state_filled"

text \<open>A sequence of field edits, each the \<open>onChange\<close> handler with its key and new value.\<close>

fun edit_all :: "(json \<times> string) list \<Rightarrow> App \<Rightarrow> App" where
  "edit_all [] s = s"
| "edit_all ((key, v) # es) s = edit_all es (setField key v s)"

text \<open>The filled-in state after a further click on the upload button.\<close>

definition state_uploading_again :: App where
  "state_uploading_again = state_filled\<lparr> isLoading := True, error := '''' \<rparr>"

text \<open>
  The malformed answers: a placeholder field that is a string, and one that is an array
  of a number, \<open>null\<close> and a string. The state after the first: a session without
  placeholders.
\<close>

definition answer_t2 :: upload_data where
  "answer_t2 = UploadData ''/tmp/t2'' (JString ''not-a-list'')"

definition answer_mixed :: upload_data where
  "answer_mixed = UploadData ''/tmp/t2'' (JArray [JNumber ''1'', JNull, JString ''a''])"

definition state_no_placeholders :: App where
  "state_no_placeholders = uploadTemplate (Body answer_t2) state_selected"

text \<open>The answer that declares the one placeholder \<open>__proto__\<close>, and the state after it.\<close>

definition answer_proto :: upload_data where
  "answer_proto = UploadData ''/tmp/t1'' (JArray [JString ''__proto__''])"

definition state_proto :: App where
  "state_proto = uploadTemplate (Body answer_proto) state_selected"

text \<open>The filled-in state after a generate request that failed.\<close>

definition state_generate_failed :: App where
  "state_generate_failed = generatePDF NotOk state_filled"

section \<open>Facts about the handlers\<close>

subsection \<open>Writing an own property\<close>

lemma update_set_subset: "set (AList.update k v fs) \<subseteq> insert (k, v) (set fs)"
  by (induction fs) auto

lemma insert_index_set: "set (insert_index n k v fs) = insert (k, v) (set fs)"
  by (induction fs) (auto split: option.splits)

lemma insert_index_map_of:
  "k \<notin> fst ` set fs \<Longrightarrow> map_of (insert_index n k v fs) = (map_of fs)(k \<mapsto> v)"
proof (induction fs)
  case Nil
  then show ?case by simp
next
  case (Cons e fs)
  obtain k1 v1 where e: "e = (k1, v1)" by (cases e)
  have ne: "k1 \<noteq> k" and notin: "k \<notin> fst ` set fs"
    using Cons.prems by (auto simp add: e)
  have ih: "map_of (insert_index n k v fs) = (map_of fs)(k \<mapsto> v)"
    using notin by (rule Cons.IH)
  show ?case
    using ne by (auto simp add: e ih fun_upd_twist split: option.splits)
qed

lemma insert_index_distinct:
  "distinct (map fst fs) \<Longrightarrow> k \<notin> fst ` set fs \<Longrightarrow> distinct (map fst (insert_index n k v fs))"
proof (induction fs)
  case Nil
  then show ?case by simp
next
  case (Cons e fs)
  have d: "distinct (map fst fs)" and notin: "k \<notin> fst ` set fs" and ne: "fst e \<noteq> k"
      and fresh: "fst e \<notin> fst ` set fs"
    using Cons.prems by auto
  have ih: "distinct (map fst (insert_index n k v fs))"
    using d notin by (rule Cons.IH)
  have "fst e \<notin> fst ` set (insert_index n k v fs)"
    using ne fresh by (auto simp add: insert_index_set)
  then show ?case
    using ih Cons.prems by (auto split: option.splits)
qed

lemma own_set_set_subset: "set (own_set k v fs) \<subseteq> insert (k, v) (set fs)"
  using update_set_subset [of k v fs]
  by (auto simp add: own_set_def insert_index_set split: option.splits)

lemma own_set_keys: "fst ` set (own_set k v fs) = insert k (fst ` set fs)"
proof (cases "k \<in> set (map fst fs)")
  case True
  then show ?thesis
    by (simp add: own_set_def dom_update)
next
  case False
  then show ?thesis
    by (auto simp add: own_set_def insert_index_set split: option.splits)
qed

lemma own_set_map_of: "map_of (own_set k v fs) = (map_of fs)(k \<mapsto> v)"
proof (cases "k \<in> set (map fst fs)")
  case True
  then show ?thesis
    by (simp add: own_set_def update_conv')
next
  case False
  then have notin: "k \<notin> fst ` set fs" by simp
  have app: "map_of (fs @ [(k, v)]) = (map_of fs)(k \<mapsto> v)"
  proof
    fix x
    have none: "map_of fs k = None"
      using notin by (simp add: map_of_eq_None_iff)
    show "map_of (fs @ [(k, v)]) x = ((map_of fs)(k \<mapsto> v)) x"
      by (cases "x = k") (simp_all add: map_add_def none split: option.splits)
  qed
  show ?thesis
    using False app insert_index_map_of [OF notin]
    by (simp add: own_set_def split: option.splits)
qed

lemma own_set_distinct: "distinct (map fst fs) \<Longrightarrow> distinct (map fst (own_set k v fs))"
proof (cases "k \<in> set (map fst fs)")
  case True
  assume "distinct (map fst fs)"
  then show ?thesis
    using True by (simp add: own_set_def distinct_update)
next
  case False
  assume d: "distinct (map fst fs)"
  have notin: "k \<notin> fst ` set fs" using False by simp
  show ?thesis
    using False d insert_index_distinct [OF d notin]
    by (auto simp add: own_set_def split: option.splits)
qed

subsection \<open>The object built by the reducer\<close>

lemma assign_distinct:
  "distinct (map fst acc) \<Longrightarrow> distinct (map fst (assign acc key v))"
  by (simp add: assign_def own_set_distinct)

lemma assign_keys:
  "fst ` set (assign acc key v) = fst ` set acc \<union> ({ToPropertyKey key} - {''__proto__''})"
  by (auto simp add: assign_def own_set_keys)

lemma assign_values:
  "\<forall>x \<in> set acc. snd x = v \<Longrightarrow> \<forall>x \<in> set (assign acc key v). snd x = v"
  using own_set_set_subset [of "ToPropertyKey key" v acc]
  by (auto simp add: assign_def)

lemma fold_assign_distinct:
  "distinct (map fst acc) \<Longrightarrow>
     distinct (map fst (foldl (\<lambda>acc key. assign acc key v) acc xs))"
  by (induction xs arbitrary: acc) (simp_all add: assign_distinct)

lemma fold_assign_keys:
  "fst ` set (foldl (\<lambda>acc key. assign acc key v) acc xs)
     = fst ` set acc \<union> (ToPropertyKey ` set xs - {''__proto__''})"
  by (induction xs arbitrary: acc) (auto simp add: assign_keys)

lemma fold_assign_values:
  "\<forall>x \<in> set acc. snd x = v \<Longrightarrow>
     \<forall>x \<in> set (foldl (\<lambda>acc key. assign acc key v) acc xs). snd x = v"
proof (induction xs arbitrary: acc)
  case Nil
  then show ?case by simp
next
  case (Cons k ks)
  have "\<forall>x \<in> set (assign acc k v). snd x = v"
    using Cons.prems by (rule assign_values)
  then show ?case using Cons.IH by simp
qed

lemma newFields_distinct: "distinct (map fst (newFields xs))"
  unfolding newFields_def by (rule fold_assign_distinct) simp

lemma newFields_keys: "fst ` set (newFields xs) = ToPropertyKey ` set xs - {''__proto__''}"
  unfolding newFields_def by (simp add: fold_assign_keys)

lemma newFields_values: "(k, v) \<in> set (newFields xs) \<Longrightarrow> v = ''''"
proof -
  have "\<forall>x \<in> set (newFields xs). snd x = ''''"
    unfolding newFields_def by (rule fold_assign_values) simp
  then show "(k, v) \<in> set (newFields xs) \<Longrightarrow> v = ''''" by fastforce
qed

lemma newFields_Nil: "newFields [] = []"
  by (simp add: newFields_def)

subsection \<open>The scenario, evaluated\<close>

lemma array_index_name: "array_index ''name'' = None"
  by (simp add: array_index_def digit_def digit_table_def)

lemma array_index_amount: "array_index ''amount'' = None"
  by (simp add: array_index_def digit_def digit_table_def)

lemma array_index_1: "array_index ''1'' = Some 1"
  by (simp add: array_index_def digit_def digit_table_def)

lemma array_index_null: "array_index ''null'' = None"
  by (simp add: array_index_def digit_def digit_table_def)

lemma array_index_a: "array_index ''a'' = None"
  by (simp add: array_index_def digit_def digit_table_def)

lemma state_selected_eq:
  "state_selected = \<lparr> file_cell = Some invoice, placeholders = [], fields_cell = [],
     fileLocation = '''', downloadLink = '''', isLoading = False, error = '''' \<rparr>"
  by (simp add: state_selected_def onDrop_def initial_def)

lemma newFields_name_amount:
  "newFields [JString ''name'', JString ''amount''] = [(''name'', ''''), (''amount'', '''')]"
  by (simp add: newFields_def assign_def own_set_def array_index_name array_index_amount)

lemma newFields_mixed:
  "newFields [JNumber ''1'', JNull, JString ''a''] = [(''1'', ''''), (''null'', ''''), (''a'', '''')]"
  by (simp add: newFields_def assign_def own_set_def array_index_1 array_index_null
      array_index_a)

lemma newFields_proto: "newFields [JString ''__proto__''] = []"
  by (simp add: newFields_def assign_def)

lemma state_ready_eq:
  "state_ready = \<lparr> file_cell = Some invoice,
     placeholders = [JString ''name'', JString ''amount''],
     fields_cell = [(''name'', ''''), (''amount'', '''')],
     fileLocation = ''/tmp/t1'', downloadLink = '''', isLoading = False, error = '''' \<rparr>"
  by (simp add: state_ready_def state_selected_eq answer_t1_def uploadTemplate_def
      uploadTemplate_begin_def uploadTemplate_resume_def placeholdersArray_def
      newFields_name_amount)

lemma state_filled_eq:
  "state_filled = \<lparr> file_cell = Some invoice,
     placeholders = [JString ''name'', JString ''amount''],
     fields_cell = [(''name'', ''Alice''), (''amount'', ''100'')],
     fileLocation = ''/tmp/t1'', downloadLink = '''', isLoading = False, error = '''' \<rparr>"
  by (simp add: state_filled_def state_ready_eq setField_def own_set_def)

lemma state_generated_eq:
  "state_generated = \<lparr> file_cell = Some invoice,
     placeholders = [JString ''name'', JString ''amount''],
     fields_cell = [(''name'', ''Alice''), (''amount'', ''100'')],
     fileLocation = ''/tmp/t1'', downloadLink = ''/out/d1.pdf'', isLoading = False,
     error = '''' \<rparr>"
  by (simp add: state_generated_def state_filled_eq generatePDF_def generatePDF_begin_def
      generatePDF_resume_def falsy_def)

lemma state_no_placeholders_eq:
  "state_no_placeholders = \<lparr> file_cell = Some invoice, placeholders = [], fields_cell = [],
     fileLocation = ''/tmp/t2'', downloadLink = '''', isLoading = False, error = '''' \<rparr>"
  by (simp add: state_no_placeholders_def state_selected_eq answer_t2_def uploadTemplate_def
      uploadTemplate_begin_def uploadTemplate_resume_def placeholdersArray_def newFields_Nil)

lemma state_proto_eq:
  "state_proto = \<lparr> file_cell = Some invoice, placeholders = [JString ''__proto__''],
     fields_cell = [],
     fileLocation = ''/tmp/t1'', downloadLink = '''', isLoading = False, error = '''' \<rparr>"
  by (simp add: state_proto_def state_selected_eq answer_proto_def uploadTemplate_def
      uploadTemplate_begin_def uploadTemplate_resume_def placeholdersArray_def newFields_proto)

lemma state_generate_failed_eq:
  "state_generate_failed = \<lparr> file_cell = Some invoice,
     placeholders = [JString ''name'', JString ''amount''],
     fields_cell = [(''name'', ''Alice''), (''amount'', ''100'')],
     fileLocation = ''/tmp/t1'', downloadLink = '''', isLoading = False,
     error = generate_message \<rparr>"
  by (simp add: state_generate_failed_def state_filled_eq generatePDF_def generatePDF_begin_def
      generatePDF_resume_def falsy_def)

text \<open>
  The order of the keys: array indices first, by their number (so \<open>9\<close> before \<open>10\<close>),
  then the other keys as they were created; \<open>01\<close> is not an array index.
\<close>

lemma newFields_key_order:
  "newFields [JString ''b'', JString ''10'', JString ''01'', JString ''9'']
     = [(''9'', ''''), (''10'', ''''), (''b'', ''''), (''01'', '''')]"
proof -
  have i: "array_index ''b'' = None" "array_index ''10'' = Some 10"
      "array_index ''01'' = None" "array_index ''9'' = Some 9"
    by (simp_all add: array_index_def digit_def digit_table_def)
  show ?thesis
    by (simp add: newFields_def assign_def own_set_def i)
qed

subsection \<open>The busy flag\<close>

lemma uploadTemplate_resume_not_loading: "\<not> isLoading (uploadTemplate_resume r t)"
  by (cases r) (simp_all add: uploadTemplate_resume_def)

lemma generatePDF_resume_not_loading: "\<not> isLoading (generatePDF_resume r t)"
  by (cases r) (simp_all add: generatePDF_resume_def)

text \<open>
  C4. For the upload and for the generate operation alike: when the operation starts
  (a file is selected, respectively a server reference is stored), its synchronous
  prefix sets the busy flag; when the request has ended, with any outcome \<open>r\<close> (the
  decoded body or one of the four failures), the continuation leaves the busy flag
  false, and so does the whole call.
\<close>

theorem busy_flag_set_then_cleared:
  "(file_cell s \<noteq> None \<longrightarrow>
      (\<exists>s1 f. uploadTemplate_begin s = Some (s1, f) \<and> isLoading s1
         \<and> uploadTemplate r s = uploadTemplate_resume r s1)
      \<and> \<not> isLoading (uploadTemplate r s))
   \<and> \<not> isLoading (uploadTemplate_resume r t)
   \<and> (\<not> falsy (fileLocation s) \<longrightarrow>
      (\<exists>s1 req. generatePDF_begin s = Some (s1, req) \<and> isLoading s1
         \<and> generatePDF r' s = generatePDF_resume r' s1)
      \<and> \<not> isLoading (generatePDF r' s))
   \<and> \<not> isLoading (generatePDF_resume r' t)"
proof -
  have up: "file_cell s \<noteq> None \<longrightarrow>
      (\<exists>s1 f. uploadTemplate_begin s = Some (s1, f) \<and> isLoading s1
         \<and> uploadTemplate r s = uploadTemplate_resume r s1)
      \<and> \<not> isLoading (uploadTemplate r s)"
    by (auto simp add: uploadTemplate_def uploadTemplate_begin_def
        uploadTemplate_resume_not_loading)
  have gen: "\<not> falsy (fileLocation s) \<longrightarrow>
      (\<exists>s1 req. generatePDF_begin s = Some (s1, req) \<and> isLoading s1
         \<and> generatePDF r' s = generatePDF_resume r' s1)
      \<and> \<not> isLoading (generatePDF r' s)"
    by (simp add: generatePDF_def generatePDF_begin_def generatePDF_resume_not_loading)
  show ?thesis
    using up gen uploadTemplate_resume_not_loading generatePDF_resume_not_loading
    by blast
qed

theorem busy_flag_set_then_cleared_witness:
  "file_cell state_filled \<noteq> None \<and> \<not> falsy (fileLocation state_filled)
   \<and> (\<exists>s1 f. uploadTemplate_begin state_filled = Some (s1, f) \<and> isLoading s1)
   \<and> \<not> isLoading (uploadTemplate NotOk state_filled)
   \<and> (\<exists>s1 req. generatePDF_begin state_filled = Some (s1, req) \<and> isLoading s1)
   \<and> \<not> isLoading (generatePDF (Body ''/out/d1.pdf'') state_filled)"
proof -
  have a: "file_cell state_filled \<noteq> None"
    by (simp add: state_filled_eq)
  have b: "\<not> falsy (fileLocation state_filled)"
    by (simp add: state_filled_eq falsy_def)
  show ?thesis
    using a b
      busy_flag_set_then_cleared [of state_filled NotOk state_filled "Body ''/out/d1.pdf''"]
    by blast
qed

subsection \<open>The generation result\<close>

text \<open>
  C8. After a generate call that succeeds with the decoded reference \<open>p\<close>, the stored
  download link is \<open>p\<close>, whatever it was before; the handler of the download anchor
  sets the link back to the empty string, in any state, and so also right after the
  generate call; once cleared, the anchor is no longer rendered.
\<close>

theorem generate_sets_link_download_clears_it:
  assumes "\<not> falsy (fileLocation s)"
  shows "downloadLink (generatePDF (Body p) s) = p
       \<and> downloadLink (generatePDF_resume (Body p) t) = p
       \<and> downloadLink (consumeDownload (generatePDF (Body p) s)) = ''''
       \<and> downloadLink (consumeDownload t) = ''''
       \<and> \<not> download_rendered (consumeDownload t)"
  using assms
  by (simp add: generatePDF_def generatePDF_begin_def generatePDF_resume_def
      consumeDownload_def download_rendered_def falsy_def)

theorem generate_sets_link_download_clears_it_witness:
  "\<not> falsy (fileLocation state_filled)
   \<and> downloadLink (generatePDF (Body ''/out/d1.pdf'') state_filled) = ''/out/d1.pdf''
   \<and> downloadLink (generatePDF (Body ''/out/d2.pdf'') state_generated) = ''/out/d2.pdf''
   \<and> downloadLink (consumeDownload state_generated) = ''''"
proof -
  have a: "\<not> falsy (fileLocation state_filled)"
    by (simp add: state_filled_eq falsy_def)
  have b: "\<not> falsy (fileLocation state_generated)"
    by (simp add: state_generated_eq falsy_def)
  show ?thesis
    using a
      generate_sets_link_download_clears_it [OF a, of "''/out/d1.pdf''" state_generated]
      generate_sets_link_download_clears_it [OF b, of "''/out/d2.pdf''" state_generated]
    by simp
qed

subsection \<open>The selected file after an upload\<close>

text \<open>
  C9, as the code has it. No path of \<open>uploadTemplate\<close> calls \<open>setFile\<close>: after the
  call, with any outcome, the selected file is the one that was selected before, and
  the same holds for the continuation alone.
\<close>

theorem upload_keeps_selected_file:
  "file_cell (uploadTemplate r s) = file_cell s
   \<and> file_cell (uploadTemplate_resume r t) = file_cell t"
proof -
  have res: "file_cell (uploadTemplate_resume r u) = file_cell u" for u
    by (cases r) (simp_all add: uploadTemplate_resume_def)
  have "file_cell (uploadTemplate r s) = file_cell s"
    by (cases "file_cell s") (simp_all add: uploadTemplate_def uploadTemplate_begin_def res)
  then show ?thesis using res by simp
qed

theorem upload_keeps_selected_file_witness:
  "file_cell (uploadTemplate (Body answer_t1) state_selected) = Some invoice"
  using upload_keeps_selected_file [of "Body answer_t1" state_selected]
  by (simp add: state_selected_eq)

text \<open>
  The claim C9 as stated fails: after the successful upload of the scenario the state
  still holds \<open>invoice.pdf\<close>.
\<close>

theorem upload_clears_file_counterexample:
  "\<not> (file_cell (uploadTemplate (Body answer_t1) state_selected) = None)"
  by (simp add: state_ready_eq [unfolded state_ready_def])

subsection \<open>What an upload stores\<close>

lemma uploadTemplate_Body:
  "file_cell s = Some f \<Longrightarrow>
     uploadTemplate (Body d) s =
       s\<lparr> isLoading := False, error := '''', fileLocation := filePath d,
          placeholders := placeholdersArray d,
          fields_cell := newFields (placeholdersArray d) \<rparr>"
  by (simp add: uploadTemplate_def uploadTemplate_begin_def uploadTemplate_resume_def)

text \<open>
  What the upload does for every placeholder list none of whose elements has the
  property key \<open>__proto__\<close>: on success the stored list is the declared one, the keys
  of the field object are the property keys of that list, and every value is empty; on every failure the
  error message is set and the session and the field object are untouched.
\<close>

lemma upload_session_without_proto:
  assumes "file_cell s \<noteq> None" and "''__proto__'' \<notin> ToPropertyKey ` set xs"
  shows "placeholders (uploadTemplate (Body (UploadData p (JArray xs))) s) = xs
       \<and> fst ` set (fields_cell (uploadTemplate (Body (UploadData p (JArray xs))) s))
           = ToPropertyKey ` set xs
       \<and> (\<forall>kv \<in> set (fields_cell (uploadTemplate (Body (UploadData p (JArray xs))) s)).
            snd kv = '''')
       \<and> distinct (map fst (fields_cell (uploadTemplate (Body (UploadData p (JArray xs))) s)))"
proof -
  obtain f where f: "file_cell s = Some f"
    using assms(1) by blast
  have pa: "placeholdersArray (UploadData p (JArray xs)) = xs"
    by (simp add: placeholdersArray_def)
  have keys: "fst ` set (newFields xs) = ToPropertyKey ` set xs"
    using assms(2) by (simp add: newFields_keys)
  have vals: "\<forall>kv \<in> set (newFields xs). snd kv = ''''"
    using newFields_values by fastforce
  show ?thesis
    using keys vals newFields_distinct [of xs]
    by (simp add: uploadTemplate_Body [OF f] pa)
qed

lemma upload_failure_leaves_session:
  assumes "file_cell s \<noteq> None" and "\<And>d. r \<noteq> Body d"
  shows "error (uploadTemplate r s) = upload_message
       \<and> fileLocation (uploadTemplate r s) = fileLocation s
       \<and> placeholders (uploadTemplate r s) = placeholders s
       \<and> fields_cell (uploadTemplate r s) = fields_cell s"
proof -
  obtain f where f: "file_cell s = Some f"
    using assms(1) by blast
  show ?thesis
  proof (cases r)
    case (Body d)
    then show ?thesis using assms(2) by blast
  qed (simp_all add: uploadTemplate_def uploadTemplate_begin_def
        uploadTemplate_resume_def f)
qed

text \<open>
  C1 at the placeholder list \<open>["__proto__"]\<close>. The upload succeeds, the stored list is
  \<open>["__proto__"]\<close>, and the field object has no key at all: its key set is not the
  set of names of the stored list.
\<close>

theorem upload_proto_placeholder_has_no_field:
  "placeholders (uploadTemplate (Body (UploadData ''/tmp/t1'' (JArray [JString ''__proto__''])))
       state_selected) = [JString ''__proto__'']
   \<and> fields_cell (uploadTemplate (Body (UploadData ''/tmp/t1'' (JArray [JString ''__proto__''])))
       state_selected) = []
   \<and> error (uploadTemplate (Body (UploadData ''/tmp/t1'' (JArray [JString ''__proto__''])))
       state_selected) = ''''
   \<and> fst ` set (fields_cell (uploadTemplate
       (Body (UploadData ''/tmp/t1'' (JArray [JString ''__proto__'']))) state_selected))
     \<noteq> ToPropertyKey ` set (placeholders (uploadTemplate
       (Body (UploadData ''/tmp/t1'' (JArray [JString ''__proto__'']))) state_selected))"
  by (simp add: state_selected_eq uploadTemplate_def uploadTemplate_begin_def
      uploadTemplate_resume_def placeholdersArray_def newFields_proto)

subsection \<open>A second upload\<close>




subsection \<open>A malformed placeholder list\<close>




lemma upload_mixed_array_fields:
  "fields_cell (uploadTemplate (Body answer_mixed) state_selected)
     = [(''1'', ''''), (''null'', ''''), (''a'', '''')]"
  by (simp add: answer_mixed_def state_selected_eq uploadTemplate_def uploadTemplate_begin_def
      uploadTemplate_resume_def placeholdersArray_def newFields_mixed)
subsection \<open>The completeness test\<close>

lemma isComplete_values: "isComplete fs \<longleftrightarrow> (\<forall>v \<in> set (Object_values fs). v \<noteq> '''')"
  by (auto simp add: isComplete_def list_ex_iff falsy_def)

lemma isComplete_map_of:
  assumes "distinct (map fst fs)"
  shows "isComplete fs \<longleftrightarrow> (\<forall>k v. map_of fs k = Some v \<longrightarrow> v \<noteq> '''')"
proof
  assume c: "isComplete fs"
  show "\<forall>k v. map_of fs k = Some v \<longrightarrow> v \<noteq> ''''"
  proof (intro allI impI)
    fix k v
    assume "map_of fs k = Some v"
    then have "(k, v) \<in> set fs" by (rule map_of_SomeD)
    then have "v \<in> set (Object_values fs)" by (force simp add: Object_values_def)
    then show "v \<noteq> ''''" using c by (simp add: isComplete_values)
  qed
next
  assume m: "\<forall>k v. map_of fs k = Some v \<longrightarrow> v \<noteq> ''''"
  have "v \<noteq> ''''" if "v \<in> set (Object_values fs)" for v
  proof -
    have "\<exists>k. (k, v) \<in> set fs"
      using that by (auto simp add: Object_values_def)
    then obtain k where "(k, v) \<in> set fs" ..
    then have "map_of fs k = Some v"
      using assms by simp
    then show ?thesis using m by blast
  qed
  then show "isComplete fs" by (simp add: isComplete_values)
qed

lemma setField_distinct:
  "distinct (map fst (fields_cell s)) \<Longrightarrow> distinct (map fst (fields_cell (setField key v s)))"
  by (simp add: setField_def own_set_distinct)

lemma edit_all_distinct:
  "distinct (map fst (fields_cell s)) \<Longrightarrow> distinct (map fst (fields_cell (edit_all es s)))"
proof (induction es arbitrary: s)
  case Nil
  then show ?case by simp
next
  case (Cons e es)
  obtain key v where e: "e = (key, v)" by (cases e)
  show ?case
    using Cons.IH [OF setField_distinct [OF Cons.prems]] by (simp add: e)
qed

lemma setField_lookup:
  "map_of (fields_cell (setField key v s))
     = (map_of (fields_cell s))(ToPropertyKey key \<mapsto> v)"
  by (simp add: setField_def own_set_map_of)

lemma setField_empty_incomplete: "\<not> isComplete (fields_cell (setField key '''' s))"
proof -
  have "map_of (fields_cell (setField key '''' s)) (ToPropertyKey key) = Some ''''"
    by (simp add: setField_lookup)
  then have "(ToPropertyKey key, '''') \<in> set (fields_cell (setField key '''' s))"
    by (rule map_of_SomeD)
  then have "'''' \<in> set (Object_values (fields_cell (setField key '''' s)))"
    by (force simp add: Object_values_def)
  then show ?thesis
    by (auto simp add: isComplete_values)
qed

text \<open>
  C3. For every field object (no key twice) and after any sequence of edits, the test
  that gates generation holds if and only if no key is mapped to the empty string;
  the generate button's \<open>disabled\<close> attribute has the negated test as its third
  disjunct; and an edit that sets a value (filled before or not) to the empty string
  makes the test false.
\<close>

theorem complete_iff_no_empty_value_after_edits:
  assumes "distinct (map fst (fields_cell s))"
  shows "(isComplete (fields_cell (edit_all es s))
            \<longleftrightarrow> (\<forall>k v. map_of (fields_cell (edit_all es s)) k = Some v \<longrightarrow> v \<noteq> ''''))
       \<and> (generate_disabled (edit_all es s)
            \<longleftrightarrow> falsy (fileLocation (edit_all es s)) \<or> isLoading (edit_all es s)
                 \<or> \<not> isComplete (fields_cell (edit_all es s)))
       \<and> \<not> isComplete (fields_cell (setField key '''' (edit_all es s)))"
proof -
  have d: "distinct (map fst (fields_cell (edit_all es s)))"
    using assms by (rule edit_all_distinct)
  have dis: "generate_disabled (edit_all es s)
      \<longleftrightarrow> falsy (fileLocation (edit_all es s)) \<or> isLoading (edit_all es s)
           \<or> \<not> isComplete (fields_cell (edit_all es s))"
    by (simp add: generate_disabled_def isComplete_def)
  show ?thesis
    using isComplete_map_of [OF d] dis setField_empty_incomplete
    by blast
qed

theorem complete_iff_no_empty_value_after_edits_witness:
  "distinct (map fst (fields_cell state_ready))
   \<and> \<not> isComplete (fields_cell state_ready)
   \<and> isComplete (fields_cell
         (edit_all [(JString ''name'', ''Alice''), (JString ''amount'', ''100'')] state_ready))
   \<and> \<not> isComplete (fields_cell
         (edit_all [(JString ''name'', ''Alice''), (JString ''amount'', ''100''),
            (JString ''name'', '''')] state_ready))"
proof -
  have a: "distinct (map fst (fields_cell state_ready))"
    by (simp add: state_ready_eq)
  have l0: "map_of (fields_cell (edit_all [] state_ready)) ''name'' = Some ''''"
    by (simp add: state_ready_eq)
  have l2: "map_of (fields_cell
      (edit_all [(JString ''name'', ''Alice''), (JString ''amount'', ''100'')] state_ready)) k
        = Some v
      \<longrightarrow> v \<noteq> ''''" for k v
    by (auto simp add: state_ready_eq setField_def own_set_def)
  have l3: "map_of (fields_cell (edit_all
      [(JString ''name'', ''Alice''), (JString ''amount'', ''100''), (JString ''name'', '''')]
      state_ready)) ''name''
      = Some ''''"
    by (simp add: state_ready_eq setField_def own_set_def)
  show ?thesis
    using a l0 l2 l3
      complete_iff_no_empty_value_after_edits [OF a, of "[]"]
      complete_iff_no_empty_value_after_edits [OF a,
        of "[(JString ''name'', ''Alice''), (JString ''amount'', ''100'')]"]
      complete_iff_no_empty_value_after_edits [OF a,
        of "[(JString ''name'', ''Alice''), (JString ''amount'', ''100''),
            (JString ''name'', '''')]"]
    by (metis edit_all.simps(1))
qed

subsection \<open>Runs of the page\<close>

lemma run_reachable: "reachable c \<Longrightarrow> run es c = Some c1 \<Longrightarrow> reachable c1"
proof (induction es arbitrary: c)
  case Nil
  then show ?case by simp
next
  case (Cons e es)
  from Cons.prems(2) obtain c2 where s: "step e c = Some c2" and r: "run es c2 = Some c1"
    by (auto split: option.splits)
  have "reachable c2"
    using Cons.prems(1) s by (rule reachable_step)
  then show ?case using r by (rule Cons.IH)
qed

lemma step_pick: "step (Drop [invoice]) (initial, []) = Some (state_selected, [])"
  by (simp add: state_selected_def page_renders_def initial_def)

lemma step_upload_click:
  "step ClickUpload (state_selected, [])
     = Some (state_selected\<lparr> isLoading := True, error := '''' \<rparr>, [UploadRequest invoice])"
  by (simp add: state_selected_eq upload_callable_def page_renders_def upload_disabled_def
      uploadTemplate_begin_def)

lemma step_upload_settled:
  "step (UploadSettled (Body answer_t1))
       (state_selected\<lparr> isLoading := True, error := '''' \<rparr>, [UploadRequest invoice])
     = Some (state_ready, [])"
  by (simp add: state_ready_def uploadTemplate_def uploadTemplate_begin_def state_selected_eq
      page_renders_def)

lemma step_fill_name:
  "step (Change (JString ''name'') ''Alice'') (state_ready, [])
     = Some (setField (JString ''name'') ''Alice'' state_ready, [])"
  by (simp add: input_rendered_def section_rendered_def page_renders_def state_ready_eq)

lemma step_fill_amount:
  "step (Change (JString ''amount'') ''100'')
       (setField (JString ''name'') ''Alice'' state_ready, [])
     = Some (state_filled, [])"
  by (simp add: input_rendered_def section_rendered_def page_renders_def state_ready_eq
      state_filled_def setField_def own_set_def)

lemma step_upload_again:
  "step ClickUpload (state_filled, [])
     = Some (state_uploading_again, [UploadRequest invoice])"
  by (simp add: state_uploading_again_def state_filled_eq upload_callable_def
      page_renders_def upload_disabled_def uploadTemplate_begin_def)

lemma run_to_filled:
  "run [Drop [invoice], ClickUpload, UploadSettled (Body answer_t1),
        Change (JString ''name'') ''Alice'', Change (JString ''amount'') ''100'']
       (initial, [])
     = Some (state_filled, [])"
  by (simp add: step_pick step_upload_click step_upload_settled step_fill_name
      step_fill_amount del: step.simps)

lemma reachable_filled: "reachable (state_filled, [])"
  using reachable_initial run_to_filled by (rule run_reachable)

lemma reachable_uploading_again: "reachable (state_uploading_again, [UploadRequest invoice])"
  using reachable_filled step_upload_again by (rule reachable_step)



lemma step_upload_settled_t2:
  "step (UploadSettled (Body answer_t2))
       (state_selected\<lparr> isLoading := True, error := '''' \<rparr>, [UploadRequest invoice])
     = Some (state_no_placeholders, [])"
  by (simp add: state_no_placeholders_def uploadTemplate_def uploadTemplate_begin_def
      state_selected_eq page_renders_def)

lemma run_to_no_placeholders:
  "run [Drop [invoice], ClickUpload, UploadSettled (Body answer_t2)] (initial, [])
     = Some (state_no_placeholders, [])"
  by (simp add: step_pick step_upload_click step_upload_settled_t2 del: step.simps)

lemma reachable_no_placeholders: "reachable (state_no_placeholders, [])"
  using reachable_initial run_to_no_placeholders by (rule run_reachable)

lemma step_upload_settled_proto:
  "step (UploadSettled (Body answer_proto))
       (state_selected\<lparr> isLoading := True, error := '''' \<rparr>, [UploadRequest invoice])
     = Some (state_proto, [])"
  by (simp add: state_proto_def uploadTemplate_def uploadTemplate_begin_def
      state_selected_eq page_renders_def)

lemma run_to_proto:
  "run [Drop [invoice], ClickUpload, UploadSettled (Body answer_proto)] (initial, [])
     = Some (state_proto, [])"
  by (simp add: step_pick step_upload_click step_upload_settled_proto del: step.simps)

lemma reachable_proto: "reachable (state_proto, [])"
  using reachable_initial run_to_proto by (rule run_reachable)

subsection \<open>Invariants of the reachable states\<close>

text \<open>What one step of the page can be.\<close>

lemma step_elims:
  assumes "step e (s, q) = Some (s1, q1)"
  obtains
    (drop) acceptedFiles where "page_renders s" and "s1 = onDrop acceptedFiles s" and "q1 = q"
  | (upload) f where "upload_callable s" and "file_cell s = Some f"
      and "s1 = s\<lparr> isLoading := True, error := '''' \<rparr>" and "q1 = q @ [UploadRequest f]"
  | (upload_settled) r where "page_renders s" and "take_upload q = Some q1"
      and "s1 = uploadTemplate_resume r s"
  | (change) key v where "input_rendered key s" and "s1 = setField key v s" and "q1 = q"
  | (generate) "generate_callable s"
      and "s1 = s\<lparr> isLoading := True, error := '''' \<rparr>"
      and "q1 = q @ [GenerateRequest (fileLocation s) (fields_cell s)]"
  | (generate_settled) r where "page_renders s" and "take_generate q = Some q1"
      and "s1 = generatePDF_resume r s"
  | (download) "download_rendered s" and "s1 = consumeDownload s" and "q1 = q"
  | (unmounted) "\<not> page_renders s" and "s1 = s"
      and "take_upload q = Some q1 \<or> take_generate q = Some q1"
proof (cases e)
  case (Drop acceptedFiles)
  then show ?thesis
    using assms drop by (auto split: if_splits)
next
  case ClickUpload
  then have c: "upload_callable s"
    using assms by (auto split: if_splits)
  then obtain f where f: "file_cell s = Some f"
    by (auto simp add: upload_callable_def upload_disabled_def)
  show ?thesis
    using assms ClickUpload c f upload [of f]
    by (auto simp add: uploadTemplate_begin_def)
next
  case (UploadSettled r)
  then show ?thesis
    using assms upload_settled [of r] unmounted
    by (cases "page_renders s") (auto split: option.splits)
next
  case (Change key v)
  then show ?thesis
    using assms change by (auto split: if_splits)
next
  case ClickGenerate
  then have c: "generate_callable s"
    using assms by (auto split: if_splits)
  then have "\<not> falsy (fileLocation s)"
    by (simp add: generate_callable_def generate_disabled_def)
  then show ?thesis
    using assms ClickGenerate c generate
    by (auto simp add: generatePDF_begin_def)
next
  case (GenerateSettled r)
  then show ?thesis
    using assms generate_settled [of r] unmounted
    by (cases "page_renders s") (auto split: option.splits)
next
  case ClickDownload
  then show ?thesis
    using assms download by (auto split: if_splits)
qed

lemma onDrop_frame:
  "placeholders (onDrop acceptedFiles s) = placeholders s
   \<and> fields_cell (onDrop acceptedFiles s) = fields_cell s
   \<and> isLoading (onDrop acceptedFiles s) = isLoading s
   \<and> (error s = '''' \<longrightarrow> error (onDrop acceptedFiles s) = '''')"
  by (cases acceptedFiles) (simp_all add: onDrop_def)

lemma generatePDF_resume_frame:
  "placeholders (generatePDF_resume r s) = placeholders s
   \<and> fields_cell (generatePDF_resume r s) = fields_cell s"
  by (cases r) (simp_all add: generatePDF_resume_def)

lemma uploadTemplate_resume_cases:
  obtains
    (stored) d where "r = Body d"
      and "placeholders (uploadTemplate_resume r s) = placeholdersArray d"
      and "fields_cell (uploadTemplate_resume r s) = newFields (placeholdersArray d)"
  | (kept) "placeholders (uploadTemplate_resume r s) = placeholders s"
      and "fields_cell (uploadTemplate_resume r s) = fields_cell s"
  by (cases r) (simp_all add: uploadTemplate_resume_def)

lemma setField_keys:
  "fst ` set (fields_cell (setField key v t))
     = insert (ToPropertyKey key) (fst ` set (fields_cell t))"
  by (simp add: setField_def own_set_keys)

lemma setField_placeholders: "placeholders (setField key v t) = placeholders t"
  by (simp add: setField_def)

text \<open>
  The hypothesis of the completeness theorem, that no key occurs twice, holds in every
  reachable state: the reducer and the edit handler both write through \<open>own_set\<close>,
  which never duplicates a key.
\<close>

lemma step_distinct:
  assumes "step e (s, q) = Some (s1, q1)" and "distinct (map fst (fields_cell s))"
  shows "distinct (map fst (fields_cell s1))"
  using assms(1)
proof (cases rule: step_elims)
  case (drop acceptedFiles)
  then show ?thesis using assms(2) onDrop_frame [of acceptedFiles s] by simp
next
  case (upload f)
  then show ?thesis using assms(2) by simp
next
  case (upload_settled r)
  show ?thesis
  proof (cases r s rule: uploadTemplate_resume_cases)
    case (stored d)
    then show ?thesis
      using newFields_distinct [of "placeholdersArray d"] upload_settled(3) by simp
  next
    case kept
    then show ?thesis
      using assms(2) upload_settled(3) by simp
  qed
next
  case (change key v)
  then show ?thesis using assms(2) setField_distinct by simp
next
  case generate
  then show ?thesis using assms(2) by simp
next
  case (generate_settled r)
  then show ?thesis using assms(2) generatePDF_resume_frame [of r s] by simp
next
  case download
  then show ?thesis using assms(2) by (simp add: consumeDownload_def)
next
  case unmounted
  then show ?thesis using assms(2) by simp
qed

lemma reachable_distinct: "reachable c \<Longrightarrow> distinct (map fst (fields_cell (fst c)))"
proof (induction rule: reachable.induct)
  case reachable_initial
  then show ?case by (simp add: initial_def)
next
  case (reachable_step c e c1)
  obtain s q where c: "c = (s, q)" by (cases c)
  obtain s1 q1 where c1: "c1 = (s1, q1)" by (cases c1)
  show ?case
    using reachable_step step_distinct [of e s q s1 q1] by (simp add: c c1)
qed

text \<open>
  At most one request is in flight, and the busy flag is true exactly while one is:
  both buttons are disabled while the flag is true. When the page is removed, no
  request is in flight.
\<close>

lemma take_upload_length: "take_upload q = Some q1 \<Longrightarrow> length q = Suc (length q1)"
  by (induction q arbitrary: q1 rule: take_upload.induct) auto

lemma take_generate_length: "take_generate q = Some q1 \<Longrightarrow> length q = Suc (length q1)"
  by (induction q arbitrary: q1 rule: take_generate.induct) auto

lemma page_renders_cong: "placeholders t = placeholders s \<Longrightarrow> page_renders t = page_renders s"
  by (simp add: page_renders_def)

lemma step_in_flight:
  assumes "step e (s, q) = Some (s1, q1)"
    and "length q \<le> 1" and "isLoading s \<longleftrightarrow> q \<noteq> []" and "\<not> page_renders s \<longrightarrow> q = []"
  shows "length q1 \<le> 1 \<and> (isLoading s1 \<longleftrightarrow> q1 \<noteq> []) \<and> (\<not> page_renders s1 \<longrightarrow> q1 = [])"
  using assms(1)
proof (cases rule: step_elims)
  case (drop acceptedFiles)
  then show ?thesis
    using assms(2,3) onDrop_frame [of acceptedFiles s]
      page_renders_cong [of "onDrop acceptedFiles s" s] by simp
next
  case (upload f)
  then have "\<not> isLoading s" and "page_renders s"
    by (simp_all add: upload_callable_def upload_disabled_def)
  then show ?thesis
    using assms(2,3) upload by (simp add: page_renders_def)
next
  case (upload_settled r)
  have "q1 = []"
    using take_upload_length [OF upload_settled(2)] assms(2) by simp
  then show ?thesis
    using uploadTemplate_resume_not_loading [of r s] upload_settled(3) by simp
next
  case (change key v)
  then have "page_renders s1"
    by (simp add: input_rendered_def page_renders_def setField_def)
  then show ?thesis
    using assms(2,3) change by (simp add: setField_def)
next
  case generate
  then have "\<not> isLoading s" and "page_renders s"
    by (simp_all add: generate_callable_def generate_disabled_def)
  then show ?thesis
    using assms(2,3) generate by (simp add: page_renders_def)
next
  case (generate_settled r)
  have "q1 = []"
    using take_generate_length [OF generate_settled(2)] assms(2) by simp
  then show ?thesis
    using generatePDF_resume_not_loading [of r s] generate_settled(3) by simp
next
  case download
  then have "page_renders s1"
    by (simp add: download_rendered_def page_renders_def consumeDownload_def)
  then show ?thesis
    using assms(2,3) download by (simp add: consumeDownload_def)
next
  case unmounted
  then have "q = []"
    using assms(4) by simp
  then show ?thesis
    using unmounted(3) by simp
qed

lemma reachable_in_flight:
  "reachable c \<Longrightarrow>
     length (snd c) \<le> 1 \<and> (isLoading (fst c) \<longleftrightarrow> snd c \<noteq> [])
     \<and> (\<not> page_renders (fst c) \<longrightarrow> snd c = [])"
proof (induction rule: reachable.induct)
  case reachable_initial
  then show ?case by (simp add: initial_def)
next
  case (reachable_step c e c1)
  obtain s q where c: "c = (s, q)" by (cases c)
  obtain s1 q1 where c1: "c1 = (s1, q1)" by (cases c1)
  show ?case
    using reachable_step step_in_flight [of e s q s1 q1] by (simp add: c c1)
qed

text \<open>
  The keys of the field object are property keys of the placeholder list, and every
  such key but \<open>__proto__\<close> is a key of the field object.
\<close>

lemma step_keys:
  assumes "step e (s, q) = Some (s1, q1)"
    and "ToPropertyKey ` set (placeholders s) - {''__proto__''} \<subseteq> fst ` set (fields_cell s)"
    and "fst ` set (fields_cell s) \<subseteq> ToPropertyKey ` set (placeholders s)"
  shows "ToPropertyKey ` set (placeholders s1) - {''__proto__''} \<subseteq> fst ` set (fields_cell s1)
       \<and> fst ` set (fields_cell s1) \<subseteq> ToPropertyKey ` set (placeholders s1)"
  using assms(1)
proof (cases rule: step_elims)
  case (drop acceptedFiles)
  then show ?thesis using assms(2,3) onDrop_frame [of acceptedFiles s] by simp
next
  case (upload f)
  then show ?thesis using assms(2,3) by simp
next
  case (upload_settled r)
  show ?thesis
  proof (cases r s rule: uploadTemplate_resume_cases)
    case (stored d)
    then show ?thesis
      using newFields_keys [of "placeholdersArray d"] upload_settled(3) by simp
  next
    case kept
    then show ?thesis
      using assms(2,3) upload_settled(3) by simp
  qed
next
  case (change key v)
  then have k: "key \<in> set (placeholders s)"
    by (simp add: input_rendered_def)
  show ?thesis
    using assms(2,3) k change(2) by (auto simp add: setField_keys setField_placeholders)
next
  case generate
  then show ?thesis using assms(2,3) by simp
next
  case (generate_settled r)
  then show ?thesis using assms(2,3) generatePDF_resume_frame [of r s] by simp
next
  case download
  then show ?thesis using assms(2,3) by (simp add: consumeDownload_def)
next
  case unmounted
  then show ?thesis using assms(2,3) by simp
qed

lemma reachable_keys:
  "reachable c \<Longrightarrow>
     ToPropertyKey ` set (placeholders (fst c)) - {''__proto__''}
       \<subseteq> fst ` set (fields_cell (fst c))
     \<and> fst ` set (fields_cell (fst c)) \<subseteq> ToPropertyKey ` set (placeholders (fst c))"
proof (induction rule: reachable.induct)
  case reachable_initial
  then show ?case by (simp add: initial_def)
next
  case (reachable_step c e c1)
  obtain s q where c: "c = (s, q)" by (cases c)
  obtain s1 q1 where c1: "c1 = (s1, q1)" by (cases c1)
  show ?case
    using reachable_step step_keys [of e s q s1 q1] by (simp add: c c1)
qed



subsection \<open>When generation can be started\<close>








lemma counterexample_states_on_page:
  "reachable (state_uploading_again, [UploadRequest invoice])
   \<and> reachable (state_no_placeholders, [])
   \<and> ''__proto__'' \<notin> ToPropertyKey ` set (placeholders state_uploading_again)
   \<and> ''__proto__'' \<notin> ToPropertyKey ` set (placeholders state_no_placeholders)"
  using reachable_uploading_again reachable_no_placeholders
  by (simp add: state_uploading_again_def state_filled_eq state_no_placeholders_eq)

subsection \<open>Busy and error\<close>

lemma step_busy_error:
  assumes "step e (s, q) = Some (s1, q1)" and "isLoading s \<longrightarrow> error s = ''''"
  shows "isLoading s1 \<longrightarrow> error s1 = ''''"
  using assms(1)
proof (cases rule: step_elims)
  case (drop acceptedFiles)
  then show ?thesis
    using assms(2) by (cases acceptedFiles) (simp_all add: onDrop_def)
next
  case (upload f)
  then show ?thesis by simp
next
  case (upload_settled r)
  then show ?thesis
    using uploadTemplate_resume_not_loading [of r s] by simp
next
  case (change key v)
  then show ?thesis
    using assms(2) by (simp add: setField_def)
next
  case generate
  then show ?thesis by simp
next
  case (generate_settled r)
  then show ?thesis
    using generatePDF_resume_not_loading [of r s] by simp
next
  case download
  then show ?thesis
    using assms(2) by (simp add: consumeDownload_def)
next
  case unmounted
  then show ?thesis
    using assms(2) by simp
qed

lemma reachable_busy_error: "reachable c \<Longrightarrow> isLoading (fst c) \<longrightarrow> error (fst c) = ''''"
proof (induction rule: reachable.induct)
  case reachable_initial
  then show ?case by (simp add: initial_def)
next
  case (reachable_step c e c1)
  obtain s q where c: "c = (s, q)" by (cases c)
  obtain s1 q1 where c1: "c1 = (s1, q1)" by (cases c1)
  show ?case
    using reachable_step step_busy_error [of e s q s1 q1] by (simp add: c c1)
qed

lemma uploadTemplate_begin_starts:
  "file_cell s \<noteq> None \<Longrightarrow>
     \<exists>t f. uploadTemplate_begin s = Some (t, f) \<and> isLoading t \<and> error t = ''''"
  by (auto simp add: uploadTemplate_begin_def)

lemma generatePDF_begin_starts:
  "\<not> falsy (fileLocation s) \<Longrightarrow>
     \<exists>t req. generatePDF_begin s = Some (t, req) \<and> isLoading t \<and> error t = ''''"
  by (simp add: generatePDF_begin_def)

lemma click_upload_starts:
  "upload_callable s \<Longrightarrow>
     \<exists>t q1. step ClickUpload (s, q) = Some (t, q1) \<and> isLoading t \<and> error t = ''''"
  by (auto simp add: upload_callable_def upload_disabled_def uploadTemplate_begin_def)

lemma click_generate_starts:
  "generate_callable s \<Longrightarrow>
     \<exists>t q1. step ClickGenerate (s, q) = Some (t, q1) \<and> isLoading t \<and> error t = ''''"
  by (auto simp add: generate_callable_def generate_disabled_def generatePDF_begin_def)

text \<open>
  C10. The upload operation, started with a file selected, and the generate operation,
  started with a server reference stored, both get past their guard and, in that one
  transition, set the busy flag and empty the error message; so does a click on either
  button that the page offers. In every reachable state of the page a true busy flag
  comes with an empty error message, and so does a request in flight.
\<close>

theorem busy_implies_no_error:
  "(file_cell s \<noteq> None \<longrightarrow>
      (\<exists>t f. uploadTemplate_begin s = Some (t, f) \<and> isLoading t \<and> error t = ''''))
   \<and> (\<not> falsy (fileLocation s) \<longrightarrow>
      (\<exists>t req. generatePDF_begin s = Some (t, req) \<and> isLoading t \<and> error t = ''''))
   \<and> (upload_callable s \<longrightarrow>
      (\<exists>t q1. step ClickUpload (s, q) = Some (t, q1) \<and> isLoading t \<and> error t = ''''))
   \<and> (generate_callable s \<longrightarrow>
      (\<exists>t q1. step ClickGenerate (s, q) = Some (t, q1) \<and> isLoading t \<and> error t = ''''))
   \<and> (uploadTemplate_begin s = Some (s1, f) \<longrightarrow> isLoading s1 \<and> error s1 = '''')
   \<and> (generatePDF_begin s = Some (s2, req) \<longrightarrow> isLoading s2 \<and> error s2 = '''')
   \<and> (reachable c \<longrightarrow> isLoading (fst c) \<longrightarrow> error (fst c) = '''')
   \<and> (reachable c \<longrightarrow> snd c \<noteq> [] \<longrightarrow> error (fst c) = '''')"
proof -
  have u: "file_cell s \<noteq> None \<longrightarrow>
      (\<exists>t f. uploadTemplate_begin s = Some (t, f) \<and> isLoading t \<and> error t = '''')"
    using uploadTemplate_begin_starts by blast
  have g: "\<not> falsy (fileLocation s) \<longrightarrow>
      (\<exists>t req. generatePDF_begin s = Some (t, req) \<and> isLoading t \<and> error t = '''')"
    using generatePDF_begin_starts by blast
  have cu: "upload_callable s \<longrightarrow>
      (\<exists>t q1. step ClickUpload (s, q) = Some (t, q1) \<and> isLoading t \<and> error t = '''')"
    using click_upload_starts by blast
  have cg: "generate_callable s \<longrightarrow>
      (\<exists>t q1. step ClickGenerate (s, q) = Some (t, q1) \<and> isLoading t \<and> error t = '''')"
    using click_generate_starts by blast
  have a: "uploadTemplate_begin s = Some (s1, f) \<longrightarrow> isLoading s1 \<and> error s1 = ''''"
    by (auto simp add: uploadTemplate_begin_def split: option.splits)
  have b: "generatePDF_begin s = Some (s2, req) \<longrightarrow> isLoading s2 \<and> error s2 = ''''"
    by (auto simp add: generatePDF_begin_def split: if_splits)
  have c: "reachable c \<longrightarrow> isLoading (fst c) \<longrightarrow> error (fst c) = ''''"
    using reachable_busy_error by blast
  have d: "reachable c \<longrightarrow> snd c \<noteq> [] \<longrightarrow> error (fst c) = ''''"
    using reachable_busy_error [of c] reachable_in_flight [of c] by blast
  show ?thesis
    using u g cu cg a b c d by (intro conjI)
qed

text \<open>
  An instance: both operations started in the state left by a failed generate request,
  where an error message is shown, and the busy state of the page during an upload.
\<close>

theorem busy_implies_no_error_witness:
  "error state_generate_failed \<noteq> ''''
   \<and> file_cell state_generate_failed \<noteq> None
   \<and> \<not> falsy (fileLocation state_generate_failed)
   \<and> generate_callable state_generate_failed
   \<and> (\<exists>t f. uploadTemplate_begin state_generate_failed = Some (t, f)
         \<and> isLoading t \<and> error t = '''')
   \<and> (\<exists>t req. generatePDF_begin state_generate_failed = Some (t, req)
         \<and> isLoading t \<and> error t = '''')
   \<and> (\<exists>t q1. step ClickGenerate (state_generate_failed, []) = Some (t, q1)
         \<and> isLoading t \<and> error t = '''')
   \<and> reachable (state_uploading_again, [UploadRequest invoice])
   \<and> isLoading (fst (state_uploading_again, [UploadRequest invoice]))
   \<and> error (fst (state_uploading_again, [UploadRequest invoice])) = ''''"
proof -
  have e: "error state_generate_failed \<noteq> ''''"
    by (simp add: state_generate_failed_eq generate_message_def)
  have fc: "file_cell state_generate_failed \<noteq> None"
    by (simp add: state_generate_failed_eq)
  have fl: "\<not> falsy (fileLocation state_generate_failed)"
    by (simp add: state_generate_failed_eq falsy_def)
  have gc: "generate_callable state_generate_failed"
    by (simp add: state_generate_failed_eq generate_callable_def generate_disabled_def
        section_rendered_def page_renders_def falsy_def Object_values_def)
  have l: "isLoading (fst (state_uploading_again, [UploadRequest invoice]))"
    by (simp add: state_uploading_again_def)
  note th = busy_implies_no_error [of state_generate_failed "[]" _ _ _ _
      "(state_uploading_again, [UploadRequest invoice])"]
  have x1: "\<exists>t f. uploadTemplate_begin state_generate_failed = Some (t, f)
         \<and> isLoading t \<and> error t = ''''"
    using th fc by blast
  have x2: "\<exists>t req. generatePDF_begin state_generate_failed = Some (t, req)
         \<and> isLoading t \<and> error t = ''''"
    using th fl by blast
  have x3: "\<exists>t q1. step ClickGenerate (state_generate_failed, []) = Some (t, q1)
         \<and> isLoading t \<and> error t = ''''"
    using th gc by blast
  have x4: "error (fst (state_uploading_again, [UploadRequest invoice])) = ''''"
    using th reachable_uploading_again l by blast
  show ?thesis
    using e fc fl gc x1 x2 x3 reachable_uploading_again l x4 by (intro conjI)
qed

subsection \<open>The keys of the field object and the edits\<close>

text \<open>
  In every reachable state whose placeholder list has no element with the property
  key \<open>__proto__\<close>, the keys of the field object are the property keys of the
  placeholder list. The page offers an edit only for an element of the placeholder
  list (while the page renders, an input is rendered for each of them and for nothing
  else), such an edit leaves the keys as they are, and so no edit that the page offers
  creates a key.
\<close>

lemma field_keys_are_placeholder_names:
  assumes "reachable (s, q)" and "''__proto__'' \<notin> ToPropertyKey ` set (placeholders s)"
  shows "fst ` set (fields_cell s) = ToPropertyKey ` set (placeholders s)
       \<and> (key \<notin> set (placeholders s) \<longrightarrow> step (Change key v) (s, q) = None)
       \<and> (key \<in> set (placeholders s) \<and> page_renders s \<longrightarrow>
            step (Change key v) (s, q) = Some (setField key v s, q)
            \<and> fst ` set (fields_cell (setField key v s)) = fst ` set (fields_cell s)
            \<and> placeholders (setField key v s) = placeholders s)"
proof -
  have eq: "fst ` set (fields_cell s) = ToPropertyKey ` set (placeholders s)"
    using reachable_keys [OF assms(1)] assms(2) by auto
  have off: "key \<notin> set (placeholders s) \<longrightarrow> step (Change key v) (s, q) = None"
    by (simp add: input_rendered_def)
  have on: "key \<in> set (placeholders s) \<and> page_renders s \<longrightarrow>
      step (Change key v) (s, q) = Some (setField key v s, q)
      \<and> fst ` set (fields_cell (setField key v s)) = fst ` set (fields_cell s)
      \<and> placeholders (setField key v s) = placeholders s"
  proof
    assume kr: "key \<in> set (placeholders s) \<and> page_renders s"
    then have k: "key \<in> set (placeholders s)" and r: "page_renders s"
      by simp_all
    have "0 < length (placeholders s)"
      using k by (rule length_pos_if_in_set)
    then have st: "step (Change key v) (s, q) = Some (setField key v s, q)"
      using k r by (simp add: input_rendered_def section_rendered_def)
    have "ToPropertyKey key \<in> fst ` set (fields_cell s)"
      using k eq by blast
    then have ks: "fst ` set (fields_cell (setField key v s)) = fst ` set (fields_cell s)"
      by (simp add: setField_keys insert_absorb)
    show "step (Change key v) (s, q) = Some (setField key v s, q)
      \<and> fst ` set (fields_cell (setField key v s)) = fst ` set (fields_cell s)
      \<and> placeholders (setField key v s) = placeholders s"
      using st ks setField_placeholders [of key v s] by (intro conjI)
  qed
  show ?thesis
    using eq off on by (intro conjI)
qed

text \<open>
  C6 on the page where the service declared the one placeholder \<open>__proto__\<close>. That
  state is reached by picking a file, clicking upload and receiving the answer. In it
  the keys of the field object (none) are not the names of the placeholder list. The
  page renders an input for \<open>__proto__\<close>, and typing into it is an edit whose name is
  not an existing key: it is accepted and creates the key.
\<close>

theorem edit_proto_placeholder_creates_key:
  "run [Drop [invoice], ClickUpload, UploadSettled (Body answer_proto)] (initial, [])
     = Some (state_proto, [])
   \<and> placeholders state_proto = [JString ''__proto__'']
   \<and> fields_cell state_proto = []
   \<and> fst ` set (fields_cell state_proto) \<noteq> ToPropertyKey ` set (placeholders state_proto)
   \<and> step (Change (JString ''__proto__'') ''x'') (state_proto, [])
       = Some (setField (JString ''__proto__'') ''x'' state_proto, [])
   \<and> fields_cell (setField (JString ''__proto__'') ''x'' state_proto) = [(''__proto__'', ''x'')]"
proof -
  have a: "placeholders state_proto = [JString ''__proto__'']"
    by (simp add: state_proto_eq)
  have b: "fields_cell state_proto = []"
    by (simp add: state_proto_eq)
  have c: "fst ` set (fields_cell state_proto) \<noteq> ToPropertyKey ` set (placeholders state_proto)"
    by (simp add: state_proto_eq)
  have d: "step (Change (JString ''__proto__'') ''x'') (state_proto, [])
       = Some (setField (JString ''__proto__'') ''x'' state_proto, [])"
    by (simp add: input_rendered_def section_rendered_def page_renders_def state_proto_eq)
  have "array_index ''__proto__'' = None"
    by (simp add: array_index_def digit_def digit_table_def)
  then have e: "fields_cell (setField (JString ''__proto__'') ''x'' state_proto)
      = [(''__proto__'', ''x'')]"
    by (simp add: setField_def own_set_def state_proto_eq)
  show ?thesis
    using run_to_proto a b c d e by (intro conjI)
qed

text \<open>
  In the same state the generate button can be activated, although the placeholder
  \<open>__proto__\<close> has no value.
\<close>

lemma proto_placeholder_on_page:
  "input_rendered (JString ''__proto__'') state_proto
   \<and> map_of (fields_cell state_proto) ''__proto__'' = None
   \<and> generate_callable state_proto"
  by (simp add: state_proto_eq input_rendered_def section_rendered_def page_renders_def
      generate_callable_def generate_disabled_def falsy_def Object_values_def)

end
